theory Spec2Isabelle
  imports Main "HOL-Library.Sublist"
begin

section \<open>The residency-directory scraper (scraper.py)\<close>

text \<open>
  A shallow embedding of \<^verbatim>\<open>scraper.py\<close>. Python exceptions are values of the
  type \<open>exn\<close>, and a function that may raise returns \<open>exn + 'a\<close> with \<open>Inl\<close> for the
  raised exception. The network is a parameter: a function from the requested URL to
  what \<^verbatim>\<open>requests.get\<close> does for it. Requests made and text printed are recorded in
  a state that is passed along.
\<close>

subsection \<open>Exceptions and results\<close>

text \<open>
  The exceptions of the \<^verbatim>\<open>requests\<close> library that \<^verbatim>\<open>requests.get\<close> can raise.
  \<open>ConnectTimeout\<close>, \<open>SSLError\<close> and \<open>ProxyError\<close> are subclasses of \<open>ConnectionError\<close>;
  \<open>ReadTimeout\<close> and \<open>TooManyRedirects\<close> are not.
\<close>

datatype requests_exn =
  ConnectionError | ConnectTimeout | SSLError | ProxyError | ReadTimeout | TooManyRedirects

fun isinstance_ConnectionError :: "requests_exn \<Rightarrow> bool" where
  "isinstance_ConnectionError ConnectionError = True"
| "isinstance_ConnectionError ConnectTimeout = True"
| "isinstance_ConnectionError SSLError = True"
| "isinstance_ConnectionError ProxyError = True"
| "isinstance_ConnectionError ReadTimeout = False"
| "isinstance_ConnectionError TooManyRedirects = False"

text \<open>
  \<open>AuthError\<close> and \<open>ScrapingError\<close> are the two exception classes of the module;
  \<open>ValueError\<close> and \<open>IndexError\<close> are the built-in ones that \<^verbatim>\<open>str.split\<close> and list
  indexing raise.
\<close>

datatype exn =
  AuthError
| ScrapingError string
| ValueError string
| IndexError
| RequestsError requests_exn

definition exn_bind :: "exn + 'a \<Rightarrow> ('a \<Rightarrow> exn + 'b) \<Rightarrow> exn + 'b" where
  "exn_bind m f = (case m of Inl e \<Rightarrow> Inl e | Inr x \<Rightarrow> f x)"

subsection \<open>Python's string and list primitives\<close>

text \<open>Decimal rendering of an integer, as \<^verbatim>\<open>'{}'.format(n)\<close> gives it.\<close>

fun str_nat :: "nat \<Rightarrow> string" where
  "str_nat n =
     (if n < 10 then [char_of (48 + n)]
      else str_nat (n div 10) @ [char_of (48 + n mod 10)])"

definition str_int :: "int \<Rightarrow> string" where
  "str_int i = (if i < 0 then CHR ''-'' # str_nat (nat (- i)) else str_nat (nat i))"

text \<open>
  The leftmost occurrence of \<open>sep\<close> in a string: the text before it and the text behind it,
  or \<open>None\<close> when \<open>sep\<close> does not occur.
\<close>

fun find_first :: "string \<Rightarrow> string \<Rightarrow> (string \<times> string) option" where
  "find_first sep [] = (if sep = [] then Some ([], []) else None)"
| "find_first sep (c # cs) =
     (if prefix sep (c # cs) then Some ([], drop (length sep) (c # cs))
      else (case find_first sep cs of
              None \<Rightarrow> None
            | Some (a, b) \<Rightarrow> Some (c # a, b)))"

lemma find_first_decomp:
  "find_first sep s = Some (a, b) \<Longrightarrow> s = a @ sep @ b"
proof (induction s arbitrary: a)
  case Nil
  then show ?case by (simp split: if_splits)
next
  case (Cons c cs)
  show ?case
  proof (cases "prefix sep (c # cs)")
    case True
    with Cons.prems show ?thesis
      by (auto simp: prefix_def)
  next
    case False
    with Cons.prems obtain a' where "find_first sep cs = Some (a', b)" "a = c # a'"
      by (auto split: option.splits)
    with Cons.IH show ?thesis by simp
  qed
qed

text \<open>
  The loop of \<^verbatim>\<open>str.split(sep)\<close> for a non-empty separator: cut at the leftmost
  occurrence, continue behind it. Occurrences are found left to right and do not overlap.
\<close>

function split_pieces :: "string \<Rightarrow> string \<Rightarrow> string list" where
  "split_pieces sep s =
     (if sep = [] then [s]
      else (case find_first sep s of
              None \<Rightarrow> [s]
            | Some (a, b) \<Rightarrow> a # split_pieces sep b))"
  by pat_completeness auto
termination
  by (relation "measure (\<lambda>(sep, s). length s)") (auto dest: find_first_decomp)

declare split_pieces.simps [simp del]

text \<open>\<^verbatim>\<open>s.split(sep)\<close>: an empty separator raises \<^verbatim>\<open>ValueError\<close>.\<close>

definition py_split :: "string \<Rightarrow> string \<Rightarrow> exn + string list" where
  "py_split s sep =
     (if sep = [] then Inl (ValueError ''empty separator'') else Inr (split_pieces sep s))"

text \<open>\<^verbatim>\<open>xs[i]\<close>: a negative index counts from the end; out of range raises \<^verbatim>\<open>IndexError\<close>.\<close>

definition py_getitem :: "'a list \<Rightarrow> int \<Rightarrow> exn + 'a" where
  "py_getitem xs i =
     (if 0 \<le> i \<and> i < int (length xs) then Inr (xs ! nat i)
      else if i < 0 \<and> - int (length xs) \<le> i then Inr (xs ! nat (int (length xs) + i))
      else Inl IndexError)"

text \<open>\<^verbatim>\<open>sub in s\<close> on strings is \<^const>\<open>sublist\<close>: \<open>sub\<close> occurs in \<open>s\<close> as a contiguous block.\<close>

subsection \<open>Fragment extraction\<close>

definition dquote :: char where
  "dquote = CHR 0x22"

definition scrape_item_error :: "string \<Rightarrow> string \<Rightarrow> exn" where
  "scrape_item_error before_s after_s =
     ScrapingError (''Failed to scrape item between '' @ [dquote] @ before_s @ [dquote]
                    @ '' and '' @ [dquote] @ after_s @ [dquote])"

text \<open>
  \<^verbatim>\<open>source.split(before)[instance].split(after)[0]\<close>, where an \<^verbatim>\<open>IndexError\<close> of
  either indexing becomes a \<open>ScrapingError\<close> and any other exception passes.
\<close>

definition scrape_item_between :: "string \<Rightarrow> string \<Rightarrow> string \<Rightarrow> int \<Rightarrow> exn + string" where
  "scrape_item_between source before_s after_s instance =
     (case py_split source before_s of
        Inl e \<Rightarrow> Inl e
      | Inr parts \<Rightarrow>
          (case py_getitem parts instance of
             Inl e \<Rightarrow> (if e = IndexError then Inl (scrape_item_error before_s after_s) else Inl e)
           | Inr segment \<Rightarrow>
               (case py_split segment after_s of
                  Inl e \<Rightarrow> Inl e
                | Inr pieces \<Rightarrow>
                    (case py_getitem pieces 0 of
                       Inl e \<Rightarrow>
                         (if e = IndexError then Inl (scrape_item_error before_s after_s)
                          else Inl e)
                     | Inr text \<Rightarrow> Inr text))))"

text \<open>The best-effort form catches \<open>ScrapingError\<close> only.\<close>

definition safe_scrape_item_between :: "string \<Rightarrow> string \<Rightarrow> string \<Rightarrow> int \<Rightarrow> exn + string" where
  "safe_scrape_item_between source before_s after_s instance =
     (case scrape_item_between source before_s after_s instance of
        Inl (ScrapingError m) \<Rightarrow> Inr ''''
      | Inl e \<Rightarrow> Inl e
      | Inr text \<Rightarrow> Inr text)"

definition scrape_section :: "string \<Rightarrow> int \<Rightarrow> exn + string" where
  "scrape_section source section_number =
     (let before_s = str_int section_number @ ''.&nbsp;'';
          after_s = str_int (section_number + 1) @ ''.&nbsp;''
      in scrape_item_between source before_s after_s 1)"

subsection \<open>Field parsers\<close>

text \<open>
  The delimiter literals. A bolded value stands between \<^verbatim>\<open><span class="bold">\<close> and
  \<^verbatim>\<open></span>\<close>; a labelled field has its label in front of the opening tag.
\<close>

definition bold_before :: string where
  "bold_before = ''<span class='' @ [dquote] @ ''bold'' @ [dquote] @ ''>''"

definition bold_after :: string where
  "bold_after = ''</span>''"

definition name_before :: string where
  "name_before = ''Program Name:&nbsp;'' @ bold_before"

definition state_before :: string where
  "state_before = ''&nbsp;State/Providence:&nbsp;'' @ bold_before"

definition city_before :: string where
  "city_before = ''City:&nbsp;'' @ bold_before"

definition last_updated_before :: string where
  "last_updated_before = ''Last Updated: '' @ bold_before"

definition scrape_name :: "string \<Rightarrow> exn + string" where
  "scrape_name source = safe_scrape_item_between source name_before bold_after 1"

definition scrape_state :: "string \<Rightarrow> exn + string" where
  "scrape_state source = safe_scrape_item_between source state_before bold_after 1"

definition scrape_city :: "string \<Rightarrow> exn + string" where
  "scrape_city source = safe_scrape_item_between source city_before bold_after 1"

definition scrape_salary :: "string \<Rightarrow> exn + string list" where
  "scrape_salary source =
     exn_bind (scrape_section source 10) (\<lambda>section.
     exn_bind (safe_scrape_item_between section bold_before bold_after 1) (\<lambda>s1.
     exn_bind (safe_scrape_item_between section bold_before bold_after 3) (\<lambda>s2.
     exn_bind (safe_scrape_item_between section bold_before bold_after 5) (\<lambda>s3.
     exn_bind (safe_scrape_item_between section bold_before bold_after 7) (\<lambda>s4.
     Inr [s1, s2, s3, s4])))))"

definition scrape_pto :: "string \<Rightarrow> exn + string list" where
  "scrape_pto source =
     exn_bind (scrape_section source 10) (\<lambda>section.
     exn_bind (safe_scrape_item_between section bold_before bold_after 2) (\<lambda>p1.
     exn_bind (safe_scrape_item_between section bold_before bold_after 4) (\<lambda>p2.
     exn_bind (safe_scrape_item_between section bold_before bold_after 6) (\<lambda>p3.
     exn_bind (safe_scrape_item_between section bold_before bold_after 8) (\<lambda>p4.
     Inr [p1, p2, p3, p4])))))"

definition scrape_avg_step_score :: "string \<Rightarrow> exn + string list" where
  "scrape_avg_step_score source =
     exn_bind (scrape_section source 19) (\<lambda>section.
     exn_bind (safe_scrape_item_between section bold_before bold_after 1) (\<lambda>a1.
     exn_bind (safe_scrape_item_between section bold_before bold_after 2) (\<lambda>a2.
     Inr [a1, a2])))"

definition scrape_min_step_score :: "string \<Rightarrow> exn + string list" where
  "scrape_min_step_score source =
     exn_bind (scrape_section source 27) (\<lambda>section.
     exn_bind (safe_scrape_item_between section bold_before bold_after 2) (\<lambda>m1.
     exn_bind (safe_scrape_item_between section bold_before bold_after 3) (\<lambda>m2.
     Inr [m1, m2])))"

record ResidentDemographics =
  total :: string
  male :: string
  female :: string

definition scrape_resident_demographics :: "string \<Rightarrow> exn + ResidentDemographics" where
  "scrape_resident_demographics source =
     exn_bind (scrape_section source 17) (\<lambda>section.
     exn_bind (safe_scrape_item_between section bold_before bold_after 1) (\<lambda>t.
     exn_bind (safe_scrape_item_between section bold_before bold_after 3) (\<lambda>f.
     exn_bind (safe_scrape_item_between section bold_before bold_after 4) (\<lambda>m.
     Inr \<lparr>total = t, male = m, female = f\<rparr>))))"

definition scrape_last_updated :: "string \<Rightarrow> exn + string" where
  "scrape_last_updated source = safe_scrape_item_between source last_updated_before ''<'' 1"

subsection \<open>Page fetch\<close>

record response =
  status_code :: int
  body :: string

datatype http_outcome = Returns response | Raises requests_exn

type_synonym network = "string \<Rightarrow> http_outcome"

text \<open>The URLs requested so far, in order, and the text printed so far.\<close>

record world =
  requested :: "string list"
  stdout :: string

definition page_url :: "int \<Rightarrow> string" where
  "page_url ident = ''https://www.apgo.org/component/residencydirectory/id/'' @ str_int ident"

definition scrape_page :: "network \<Rightarrow> int \<Rightarrow> world \<Rightarrow> (exn + string) \<times> world" where
  "scrape_page net ident w =
     (let url = page_url ident;
          w' = w\<lparr>requested := requested w @ [url]\<rparr>
      in case net url of
           Raises e \<Rightarrow>
             (if isinstance_ConnectionError e then (Inl (ScrapingError ''ConnectionError''), w')
              else (Inl (RequestsError e), w'))
         | Returns resp \<Rightarrow>
             (if status_code resp \<noteq> 200
              then (Inl (ScrapingError (''Failed to get page. Status code ''
                                        @ str_int (status_code resp))), w')
              else if sublist ''Not Authorized'' (body resp) then (Inl AuthError, w')
              else (Inr (body resp), w')))"

subsection \<open>Record assembly\<close>

record ResidencyInfo =
  name :: string
  state :: string
  city :: string
  salary :: "string list"
  pto :: "string list"
  min_step_scores :: "string list"
  avg_step_scores :: "string list"
  resident_demographics :: ResidentDemographics
  last_updated :: string

text \<open>The field parsers run in the order of the keyword arguments; the first exception ends the call.\<close>

definition parse_fields :: "string \<Rightarrow> exn + ResidencyInfo" where
  "parse_fields page_source =
     exn_bind (scrape_name page_source) (\<lambda>n.
     exn_bind (scrape_state page_source) (\<lambda>st.
     exn_bind (scrape_city page_source) (\<lambda>c.
     exn_bind (scrape_salary page_source) (\<lambda>sal.
     exn_bind (scrape_pto page_source) (\<lambda>p.
     exn_bind (scrape_min_step_score page_source) (\<lambda>mn.
     exn_bind (scrape_avg_step_score page_source) (\<lambda>av.
     exn_bind (scrape_resident_demographics page_source) (\<lambda>d.
     exn_bind (scrape_last_updated page_source) (\<lambda>l.
     Inr \<lparr>name = n, state = st, city = c, salary = sal, pto = p,
          min_step_scores = mn, avg_step_scores = av,
          resident_demographics = d, last_updated = l\<rparr>)))))))))"

definition get_residency_info :: "network \<Rightarrow> int \<Rightarrow> world \<Rightarrow> (exn + ResidencyInfo) \<times> world" where
  "get_residency_info net ident w =
     (case scrape_page net ident w of
        (Inl e, w') \<Rightarrow> (Inl e, w')
      | (Inr page_source, w') \<Rightarrow> (parse_fields page_source, w'))"

subsection \<open>The driver\<close>

definition print :: "string \<Rightarrow> world \<Rightarrow> world" where
  "print s w = w\<lparr>stdout := stdout w @ s\<rparr>"

definition LAST_ID :: int where
  "LAST_ID = 287"

text \<open>
  The body of the \<^verbatim>\<open>for\<close> loop, over the identifiers still to visit. \<open>AuthError\<close> and
  \<open>ReadTimeout\<close> print SKIP, \<open>ScrapingError\<close> prints FAIL, any other exception leaves
  the loop.
\<close>

fun scrape_loop ::
  "network \<Rightarrow> int list \<Rightarrow> ResidencyInfo list \<Rightarrow> world \<Rightarrow> (exn + ResidencyInfo list) \<times> world"
where
  "scrape_loop net [] all_residency_info w = (Inr all_residency_info, w)"
| "scrape_loop net (ident # ids) all_residency_info w =
     (let w1 = print (''Scraping id '' @ str_int ident @ ''...'' @ [CHR 0x09]) w
      in case get_residency_info net ident w1 of
           (Inr residency_info, w2) \<Rightarrow>
             scrape_loop net ids (all_residency_info @ [residency_info])
               (print (''SUCCESS'' @ [CHR 0x0A]) w2)
         | (Inl e, w2) \<Rightarrow>
             (if e = AuthError \<or> e = RequestsError ReadTimeout
              then scrape_loop net ids all_residency_info (print (''SKIP'' @ [CHR 0x0A]) w2)
              else (case e of
                      ScrapingError m \<Rightarrow>
                        scrape_loop net ids all_residency_info
                          (print (''FAIL'' @ [CHR 0x0A]) w2)
                    | _ \<Rightarrow> (Inl e, w2))))"

definition scrape :: "network \<Rightarrow> world \<Rightarrow> (exn + ResidencyInfo list) \<times> world" where
  "scrape net w =
     (let w0 = print (''Starting Scraper...'' @ [CHR 0x0A]) w
      in case scrape_loop net [1..LAST_ID - 1] [] w0 of
           (Inl e, w1) \<Rightarrow> (Inl e, w1)
         | (Inr all_residency_info, w1) \<Rightarrow>
             (Inr all_residency_info, print (''Done.'' @ [CHR 0x0A]) w1))"

section \<open>Vocabulary of the properties\<close>

text \<open>
  The definitions of this section are not translations of the source. They say, by a scan
  from left to right, what an occurrence, an item, a bolded value, a section and the record
  of a page are, so that the properties can compare the source with them.
\<close>

subsection \<open>Occurrences of a delimiter\<close>

text \<open>
  \<open>after_nth sep n s\<close> is the text behind the
  \<open>n\<close>-th occurrence of \<open>sep\<close> in \<open>s\<close>, counting occurrences from the left without
  overlap, and \<open>None\<close> when \<open>s\<close> has fewer than \<open>n\<close> of them. \<open>upto_first sep s\<close> is
  the text of \<open>s\<close> up to its first occurrence of \<open>sep\<close>, and all of \<open>s\<close> when there is
  none.
\<close>

fun after_nth :: "string \<Rightarrow> nat \<Rightarrow> string \<Rightarrow> string option" where
  "after_nth sep 0 s = Some s"
| "after_nth sep (Suc n) s =
     (case find_first sep s of None \<Rightarrow> None | Some (a, b) \<Rightarrow> after_nth sep n b)"

definition upto_first :: "string \<Rightarrow> string \<Rightarrow> string" where
  "upto_first sep s = (case find_first sep s of None \<Rightarrow> s | Some (a, b) \<Rightarrow> a)"

text \<open>
  All items of a text, in order: for each occurrence of the first delimiter, the text behind
  it, cut at the next occurrence of the first delimiter and then at the first occurrence
  of the second. \<open>item_at\<close> is the \<open>k\<close>-th of them, counted from 1, and the empty string
  when there are fewer than \<open>k\<close>.
\<close>

function items_between :: "string \<Rightarrow> string \<Rightarrow> string \<Rightarrow> string list" where
  "items_between before_s after_s s =
     (if before_s = [] then []
      else (case find_first before_s s of
              None \<Rightarrow> []
            | Some (a, r) \<Rightarrow>
                upto_first after_s (upto_first before_s r) # items_between before_s after_s r))"
  by pat_completeness auto
termination
  by (relation "measure (\<lambda>(before_s, after_s, s). length s)") (auto dest: find_first_decomp)

declare items_between.simps [simp del]

definition item_at :: "string \<Rightarrow> string \<Rightarrow> string \<Rightarrow> nat \<Rightarrow> string" where
  "item_at before_s after_s s k =
     (if 1 \<le> k \<and> k \<le> length (items_between before_s after_s s)
      then items_between before_s after_s s ! (k - 1)
      else [])"

subsection \<open>Bolded values, sections and records\<close>

text \<open>The bolded values of a section, and the one at an occurrence index.\<close>

definition bolded_values :: "string \<Rightarrow> string list" where
  "bolded_values s = items_between bold_before bold_after s"

definition value_at :: "string \<Rightarrow> nat \<Rightarrow> string" where
  "value_at s k = item_at bold_before bold_after s k"

text \<open>
  A text laid out as a leading gap followed by bolded values, each with a gap behind it.
  A gap or a value with its closing tag is free of the opening tag when no occurrence of
  the opening tag begins in it.
\<close>

fun layout :: "string \<Rightarrow> (string \<times> string) list \<Rightarrow> string" where
  "layout gap [] = gap"
| "layout gap ((v, gap') # rest) = gap @ bold_before @ layout (v @ bold_after @ gap') rest"

definition tag_free :: "string \<Rightarrow> bool" where
  "tag_free t \<longleftrightarrow> \<not> sublist bold_before (t @ butlast bold_before)"

text \<open>
  The marker of section \<open>n\<close>, and the text of section \<open>n\<close> of a page: the first item
  between the marker of \<open>n\<close> and the marker of \<open>n + 1\<close>.
\<close>

definition section_marker :: "int \<Rightarrow> string" where
  "section_marker n = str_int n @ ''.&nbsp;''"

definition section_of :: "string \<Rightarrow> int \<Rightarrow> string" where
  "section_of page n = item_at (section_marker n) (section_marker (n + 1)) page 1"

text \<open>The record that a page describes.\<close>

definition page_record :: "string \<Rightarrow> ResidencyInfo" where
  "page_record page =
     \<lparr>name = item_at name_before bold_after page 1,
      state = item_at state_before bold_after page 1,
      city = item_at city_before bold_after page 1,
      salary = map (value_at (section_of page 10)) [1, 3, 5, 7],
      pto = map (value_at (section_of page 10)) [2, 4, 6, 8],
      min_step_scores = map (value_at (section_of page 27)) [2, 3],
      avg_step_scores = map (value_at (section_of page 19)) [1, 2],
      resident_demographics =
        \<lparr>total = value_at (section_of page 17) 1,
         male = value_at (section_of page 17) 4,
         female = value_at (section_of page 17) 3\<rparr>,
      last_updated = item_at last_updated_before ''<'' page 1\<rparr>"

subsection \<open>Served identifiers and progress lines\<close>

text \<open>
  A page has its sections when the markers of sections 10, 17, 19 and 27 occur in it. An
  identifier is served when its request returns status 200 and a body that is not the
  \<^verbatim>\<open>Not Authorized\<close> page and has its sections.
\<close>

definition has_sections :: "string \<Rightarrow> bool" where
  "has_sections page \<longleftrightarrow>
     sublist (section_marker 10) page \<and> sublist (section_marker 17) page \<and>
     sublist (section_marker 19) page \<and> sublist (section_marker 27) page"

definition served :: "network \<Rightarrow> int \<Rightarrow> bool" where
  "served net ident =
     (case net (page_url ident) of
        Raises e \<Rightarrow> False
      | Returns resp \<Rightarrow>
          status_code resp = 200 \<and> \<not> sublist ''Not Authorized'' (body resp)
          \<and> has_sections (body resp))"

definition served_page :: "network \<Rightarrow> int \<Rightarrow> string" where
  "served_page net ident =
     (case net (page_url ident) of Raises e \<Rightarrow> [] | Returns resp \<Rightarrow> body resp)"

text \<open>
  What the driver prints for an identifier: SUCCESS when it is served, SKIP for the
  \<^verbatim>\<open>Not Authorized\<close> page and for a read timeout, FAIL otherwise.
\<close>

definition outcome_tag :: "network \<Rightarrow> int \<Rightarrow> string" where
  "outcome_tag net ident =
     (if served net ident then ''SUCCESS''
      else (case net (page_url ident) of
              Raises e \<Rightarrow> (if e = ReadTimeout then ''SKIP'' else ''FAIL'')
            | Returns resp \<Rightarrow>
                (if status_code resp = 200 \<and> sublist ''Not Authorized'' (body resp)
                 then ''SKIP'' else ''FAIL'')))"

definition progress_line :: "network \<Rightarrow> int \<Rightarrow> string" where
  "progress_line net ident =
     ''Scraping id '' @ str_int ident @ ''...'' @ [CHR 0x09] @ outcome_tag net ident
     @ [CHR 0x0A]"

subsection \<open>Example pages and an example network\<close>

definition bold :: "string \<Rightarrow> string" where
  "bold v = bold_before @ v @ bold_after"

text \<open>A page with a compensation section of eight bolded values.\<close>

definition compensation_page :: string where
  "compensation_page =
     ''<p>10.&nbsp;'' @ bold ''50000'' @ bold ''10'' @ bold ''52000'' @ bold ''12''
     @ bold ''54000'' @ bold ''14'' @ bold ''56000'' @ bold ''16'' @ ''11.&nbsp;</p>''"

text \<open>A page with a demographics section and a section of minimum scores.\<close>

definition scores_page :: string where
  "scores_page =
     ''17.&nbsp;'' @ bold ''24'' @ bold ''2015'' @ bold ''20'' @ bold ''4''
     @ ''18.&nbsp;27.&nbsp;'' @ bold ''Yes'' @ bold ''200'' @ bold ''210'' @ ''28.&nbsp;''"

text \<open>A page with a name, no state, and all four sections.\<close>

definition example_page :: string where
  "example_page =
     name_before @ ''Example Program'' @ bold_after
     @ ''10.&nbsp;'' @ bold ''50000'' @ bold ''10''
     @ ''17.&nbsp;'' @ bold ''24'' @ ''19.&nbsp;27.&nbsp;''"

definition example_network :: network where
  "example_network url =
     (if url = page_url 1 then Raises ConnectionError
      else if url = page_url 2 then Returns \<lparr>status_code = 200, body = example_page\<rparr>
      else if url = page_url 3 then Raises ReadTimeout
      else if url = page_url 4 then Returns \<lparr>status_code = 500, body = ''Server Error''\<rparr>
      else if url = page_url 5 then Returns \<lparr>status_code = 200, body = ''10.&nbsp;only''\<rparr>
      else if url = page_url 7 then Raises ConnectTimeout
      else Returns \<lparr>status_code = 200, body = ''<p>Not Authorized</p>''\<rparr>)"

section \<open>Properties\<close>

subsection \<open>Finding and splitting\<close>

text \<open>\<open>find_first\<close> finds an occurrence exactly when there is one, and it is the leftmost.\<close>

lemma find_first_None_iff: "find_first sep s = None \<longleftrightarrow> \<not> sublist sep s"
  by (induction s) (auto simp: sublist_Cons_right split: option.splits)

lemma find_first_leftmost:
  "find_first sep s = Some (a, b) \<Longrightarrow> s = a' @ sep @ b' \<Longrightarrow> length a \<le> length a'"
proof (induction s arbitrary: a a')
  case Nil
  then show ?case by (simp split: if_splits)
next
  case (Cons c cs)
  show ?case
  proof (cases "prefix sep (c # cs)")
    case True
    with Cons.prems(1) have "a = []" by simp
    then show ?thesis by simp
  next
    case False
    with Cons.prems(1) obtain a1 where a1: "find_first sep cs = Some (a1, b)" "a = c # a1"
      by (auto split: option.splits)
    from False Cons.prems(2) have "a' \<noteq> []"
      by (auto simp: prefix_def)
    then obtain a2 where a2: "a' = c # a2" "cs = a2 @ sep @ b'"
      using Cons.prems(2) by (cases a') auto
    from Cons.IH[OF a1(1) a2(2)] a1(2) a2(1) show ?thesis by simp
  qed
qed

lemma upto_first_no_occurrence: "\<not> sublist sep s \<Longrightarrow> upto_first sep s = s"
  by (simp add: upto_first_def find_first_None_iff[symmetric])

text \<open>When no occurrence of \<open>sep\<close> begins in \<open>a\<close>, the first one in \<open>a @ sep @ b\<close> is the one shown.\<close>

lemma prefix_of_append_long:
  "prefix xs (ys @ zs) \<Longrightarrow> length xs \<le> length ys \<Longrightarrow> prefix xs ys"
  by (auto simp: prefix_def append_eq_append_conv2)

lemma find_first_append:
  assumes "\<not> sublist sep (a @ butlast sep)"
  shows "find_first sep (a @ sep @ b) = Some (a, b)"
  using assms
proof (induction a)
  case Nil
  then have "sep \<noteq> []" by auto
  then obtain c cs where s: "sep = c # cs" by (cases sep) auto
  then show ?case by simp
next
  case (Cons c a)
  from Cons.prems have ne: "sep \<noteq> []" by auto
  have np: "\<not> prefix sep ((c # a) @ sep @ b)"
  proof
    assume p: "prefix sep ((c # a) @ sep @ b)"
    from ne have "(c # a) @ sep @ b = ((c # a) @ butlast sep) @ (last sep # b)" by simp
    with p have "prefix sep (((c # a) @ butlast sep) @ (last sep # b))" by (simp only:)
    moreover from ne have "length sep \<le> length ((c # a) @ butlast sep)" by simp
    ultimately have "prefix sep ((c # a) @ butlast sep)" by (rule prefix_of_append_long)
    then have "sublist sep ((c # a) @ butlast sep)" by (rule prefix_imp_sublist)
    with Cons.prems show False by simp
  qed
  from Cons.prems have "\<not> sublist sep (a @ butlast sep)"
    by (simp add: sublist_Cons_right)
  from Cons.IH[OF this] np show ?case by simp
qed

lemma upto_first_append:
  "\<not> sublist sep (a @ butlast sep) \<Longrightarrow> upto_first sep (a @ sep @ b) = a"
  by (simp add: upto_first_def find_first_append)

text \<open>The pieces of a split: piece \<open>n\<close> exists exactly when there are \<open>n\<close> occurrences.\<close>

lemma split_pieces_length:
  "sep \<noteq> [] \<Longrightarrow> n < length (split_pieces sep s) \<longleftrightarrow> after_nth sep n s \<noteq> None"
proof (induction n arbitrary: s)
  case 0
  then show ?case by (subst split_pieces.simps) (simp split: option.splits)
next
  case (Suc n)
  then show ?case
    by (subst split_pieces.simps) (simp split: option.splits)
qed

lemma split_pieces_nth:
  "sep \<noteq> [] \<Longrightarrow> after_nth sep n s = Some r \<Longrightarrow> split_pieces sep s ! n = upto_first sep r"
proof (induction n arbitrary: s)
  case 0
  then show ?case by (subst split_pieces.simps) (simp add: upto_first_def split: option.splits)
next
  case (Suc n)
  then show ?case
    by (subst split_pieces.simps) (auto split: option.splits)
qed

lemma split_pieces_hd:
  "sep \<noteq> [] \<Longrightarrow> split_pieces sep s \<noteq> [] \<and> hd (split_pieces sep s) = upto_first sep s"
  by (subst (1 2) split_pieces.simps) (simp add: upto_first_def split: option.splits)

lemma py_getitem_nonneg:
  "0 \<le> i \<Longrightarrow> py_getitem xs i = (if nat i < length xs then Inr (xs ! nat i) else Inl IndexError)"
  by (auto simp: py_getitem_def)

lemma py_getitem_range:
  "py_getitem xs i = Inl e \<Longrightarrow> e = IndexError"
  by (auto simp: py_getitem_def split: if_splits)

lemma first_piece:
  "sep \<noteq> [] \<Longrightarrow> py_getitem (split_pieces sep s) 0 = Inr (upto_first sep s)"
  using split_pieces_hd[of sep s]
  by (cases "split_pieces sep s") (auto simp: py_getitem_def)

subsection \<open>Strict extraction\<close>

text \<open>
  With non-empty delimiters and an index that is not negative, strict extraction looks for
  the \<open>instance\<close>-th occurrence of the first delimiter. Without one it raises; with one it
  returns the text behind it, cut at the next occurrence of the first delimiter and then at
  the first occurrence of the second.
\<close>

lemma scrape_item_between_nonneg:
  assumes "before_s \<noteq> []" and "after_s \<noteq> []" and "0 \<le> instance"
  shows "scrape_item_between source before_s after_s instance =
     (case after_nth before_s (nat instance) source of
        None \<Rightarrow> Inl (scrape_item_error before_s after_s)
      | Some r \<Rightarrow> Inr (upto_first after_s (upto_first before_s r)))"
proof (cases "after_nth before_s (nat instance) source")
  case None
  with assms(1) have "\<not> nat instance < length (split_pieces before_s source)"
    by (simp add: split_pieces_length)
  with assms None show ?thesis
    by (simp add: scrape_item_between_def py_split_def py_getitem_nonneg[OF assms(3)])
next
  case (Some r)
  with assms(1) have "nat instance < length (split_pieces before_s source)"
    and "split_pieces before_s source ! nat instance = upto_first before_s r"
    by (simp_all add: split_pieces_length split_pieces_nth)
  with assms Some show ?thesis
    by (simp add: scrape_item_between_def py_split_def py_getitem_nonneg[OF assms(3)]
        first_piece)
qed

lemma scrape_item_between_raises:
  assumes "before_s \<noteq> []" and "after_s \<noteq> []"
    and "scrape_item_between source before_s after_s instance = Inl e"
  shows "e = scrape_item_error before_s after_s"
  using assms
  by (auto simp: scrape_item_between_def py_split_def first_piece
      split: sum.splits if_splits dest: py_getitem_range)

text \<open>
  C1. Strict extraction is claimed to raise when the second delimiter is absent from the
  selected segment. It does not: \<^verbatim>\<open>segment.split(after)[0]\<close> is the whole segment then,
  and no \<^verbatim>\<open>IndexError\<close> arises. Here \<^verbatim>\<open>Y\<close> does not occur in the source at all, and
  the call returns the text behind \<^verbatim>\<open>X\<close>.
\<close>

theorem scrape_item_between_after_absent:
  "\<not> sublist ''Y'' ''aXb'' \<and> scrape_item_between ''aXb'' ''X'' ''Y'' 1 = Inr ''b''"
  by code_simp

text \<open>
  C10, as claimed for every delimiter: strict extraction fails only when the index is out
  of range. With an empty second delimiter the index is in range and
  \<^verbatim>\<open>segment.split(after)\<close> raises \<^verbatim>\<open>ValueError\<close>; with an empty first delimiter
  \<^verbatim>\<open>source.split(before)\<close> raises it before any index is used.
\<close>

theorem strict_extraction_empty_delimiter_raises:
  "after_nth ''X'' (nat 1) ''aXb'' = Some ''b''
   \<and> scrape_item_between ''aXb'' ''X'' [] 1 = Inl (ValueError ''empty separator'')
   \<and> scrape_item_between ''aXb'' [] ''Y'' 1 = Inl (ValueError ''empty separator'')"
  by code_simp

text \<open>
  C10, amended. For an index from 1 on and a non-empty first delimiter: when the source
  has an \<open>instance\<close>-th occurrence of the first delimiter and the selected segment (the
  text behind that occurrence, up to the next occurrence of the first delimiter or the end
  of the source) does not contain the second delimiter, strict extraction returns the whole
  segment; when the source has fewer than \<open>instance\<close> occurrences it raises the
  \<open>ScrapingError\<close> naming the two delimiters; and with a non-empty second delimiter that is
  the only case in which it raises. An empty first delimiter, and an empty second delimiter
  with the index in range, raise \<^verbatim>\<open>ValueError\<close>.
\<close>

theorem strict_extraction_without_after:
  assumes "1 \<le> instance"
  shows "(before_s \<noteq> [] \<longrightarrow>
          after_nth before_s (nat instance) source = Some rest \<longrightarrow>
          \<not> sublist after_s (upto_first before_s rest) \<longrightarrow>
          scrape_item_between source before_s after_s instance
            = Inr (upto_first before_s rest))
       \<and> (before_s \<noteq> [] \<longrightarrow>
          after_nth before_s (nat instance) source = None \<longrightarrow>
          scrape_item_between source before_s after_s instance
            = Inl (scrape_item_error before_s after_s))
       \<and> (before_s \<noteq> [] \<longrightarrow> after_s \<noteq> [] \<longrightarrow>
          (isl (scrape_item_between source before_s after_s instance)
             \<longleftrightarrow> after_nth before_s (nat instance) source = None))
       \<and> (before_s = [] \<longrightarrow>
          scrape_item_between source before_s after_s instance
            = Inl (ValueError ''empty separator''))
       \<and> (before_s \<noteq> [] \<longrightarrow> after_s = [] \<longrightarrow>
          after_nth before_s (nat instance) source = Some rest \<longrightarrow>
          scrape_item_between source before_s after_s instance
            = Inl (ValueError ''empty separator''))"
proof (intro conjI impI)
  assume b: "before_s \<noteq> []"
    and r: "after_nth before_s (nat instance) source = Some rest"
    and n: "\<not> sublist after_s (upto_first before_s rest)"
  from n have "after_s \<noteq> []" by auto
  with assms b r n show "scrape_item_between source before_s after_s instance
            = Inr (upto_first before_s rest)"
    by (simp add: scrape_item_between_nonneg upto_first_no_occurrence)
next
  assume b: "before_s \<noteq> []"
    and "after_nth before_s (nat instance) source = None"
  then have "\<not> nat instance < length (split_pieces before_s source)"
    by (simp add: split_pieces_length)
  moreover from assms have "0 \<le> instance" by simp
  ultimately show "scrape_item_between source before_s after_s instance
            = Inl (scrape_item_error before_s after_s)"
    using b by (simp add: scrape_item_between_def py_split_def py_getitem_nonneg)
next
  assume "before_s \<noteq> []" and "after_s \<noteq> []"
  with assms show "isl (scrape_item_between source before_s after_s instance)
             \<longleftrightarrow> after_nth before_s (nat instance) source = None"
    by (simp add: scrape_item_between_nonneg split: option.splits)
next
  assume "before_s = []"
  then show "scrape_item_between source before_s after_s instance
            = Inl (ValueError ''empty separator'')"
    by (simp add: scrape_item_between_def py_split_def)
next
  assume b: "before_s \<noteq> []" and a: "after_s = []"
    and r: "after_nth before_s (nat instance) source = Some rest"
  from b r have "nat instance < length (split_pieces before_s source)"
    by (simp add: split_pieces_length)
  moreover from assms have "0 \<le> instance" by simp
  ultimately show "scrape_item_between source before_s after_s instance
            = Inl (ValueError ''empty separator'')"
    using a b by (simp add: scrape_item_between_def py_split_def py_getitem_nonneg)
qed

theorem strict_extraction_without_after_witness:
  "after_nth ''X'' (nat 2) ''aXbXcd'' = Some ''cd''
   \<and> \<not> sublist ''Y'' (upto_first ''X'' ''cd'')
   \<and> scrape_item_between ''aXbXcd'' ''X'' ''Y'' 2 = Inr ''cd''
   \<and> after_nth ''X'' (nat 3) ''aXbXcd'' = None
   \<and> scrape_item_between ''aXbXcd'' ''X'' ''Y'' 3 = Inl (scrape_item_error ''X'' ''Y'')
   \<and> isl (scrape_item_between ''aXbXcd'' ''X'' ''Y'' 3)
   \<and> scrape_item_between ''aXbXcd'' [] ''Y'' 2 = Inl (ValueError ''empty separator'')
   \<and> scrape_item_between ''aXbXcd'' ''X'' [] 2 = Inl (ValueError ''empty separator'')"
proof -
  have h2: "(1::int) \<le> 2" and h2': "(1::int) \<le> 3" by simp_all
  have h3: "after_nth ''X'' (nat 2) ''aXbXcd'' = Some ''cd''" by code_simp
  have h4: "\<not> sublist ''Y'' (upto_first ''X'' ''cd'')" by code_simp
  have h6: "after_nth ''X'' (nat 3) ''aXbXcd'' = None" by code_simp
  have h7: "upto_first ''X'' ''cd'' = ''cd''" by code_simp
  from strict_extraction_without_after[OF h2, where before_s = "''X''"
      and source = "''aXbXcd''" and rest = "''cd''" and after_s = "''Y''"] h3 h4
  have a: "scrape_item_between ''aXbXcd'' ''X'' ''Y'' 2 = Inr ''cd''"
    by (simp add: h7)
  from strict_extraction_without_after[OF h2', where before_s = "''X''"
      and source = "''aXbXcd''" and after_s = "''Y''"] h6
  have b: "scrape_item_between ''aXbXcd'' ''X'' ''Y'' 3 = Inl (scrape_item_error ''X'' ''Y'')"
    and b': "isl (scrape_item_between ''aXbXcd'' ''X'' ''Y'' 3)"
    by simp_all
  from strict_extraction_without_after[OF h2, where before_s = "[]"
      and source = "''aXbXcd''" and after_s = "''Y''"]
  have c: "scrape_item_between ''aXbXcd'' [] ''Y'' 2 = Inl (ValueError ''empty separator'')"
    by simp
  from strict_extraction_without_after[OF h2, where before_s = "''X''"
      and source = "''aXbXcd''" and rest = "''cd''" and after_s = "[]"] h3
  have d: "scrape_item_between ''aXbXcd'' ''X'' [] 2 = Inl (ValueError ''empty separator'')"
    by simp
  from h3 h4 h6 a b b' c d show ?thesis by simp
qed

text \<open>
  C3. Section extraction is claimed to raise when the marker of section \<open>N + 1\<close> is
  missing. The marker of section 11 is missing here, and section 10 is returned as
  everything behind its own marker.
\<close>

theorem scrape_section_next_marker_absent:
  "\<not> sublist ''11.&nbsp;'' ''10.&nbsp;salary table''
   \<and> scrape_section ''10.&nbsp;salary table'' 10 = Inr ''salary table''"
  by code_simp

subsection \<open>Best-effort extraction\<close>

text \<open>
  C8, as claimed for every delimiter: best-effort extraction never fails, and returns the
  empty string exactly when strict extraction fails. An empty delimiter makes
  \<^verbatim>\<open>str.split\<close> raise \<^verbatim>\<open>ValueError\<close>, which the best-effort form does not catch; and
  strict extraction can succeed with the empty string.
\<close>

theorem safe_scrape_empty_delimiter_raises:
  "safe_scrape_item_between ''abc'' [] ''x'' 1 = Inl (ValueError ''empty separator'')
   \<and> scrape_item_between ''XY'' ''X'' ''Y'' 1 = Inr []
   \<and> safe_scrape_item_between ''XY'' ''X'' ''Y'' 1 = Inr []"
  by code_simp

text \<open>
  C8, amended: with non-empty delimiters, best-effort extraction always returns a string:
  the empty one when strict extraction fails on the same arguments, and the result of
  strict extraction otherwise.
\<close>

theorem safe_scrape_total:
  assumes "before_s \<noteq> []" and "after_s \<noteq> []"
  shows "safe_scrape_item_between source before_s after_s instance =
           Inr (case scrape_item_between source before_s after_s instance of
                  Inl e \<Rightarrow> []
                | Inr text \<Rightarrow> text)"
proof (cases "scrape_item_between source before_s after_s instance")
  case (Inl e)
  with assms have "e = scrape_item_error before_s after_s"
    by (rule scrape_item_between_raises)
  with Inl show ?thesis
    by (simp add: safe_scrape_item_between_def scrape_item_error_def)
next
  case (Inr t)
  then show ?thesis
    by (simp add: safe_scrape_item_between_def)
qed

theorem safe_scrape_total_witness:
  "''X'' \<noteq> [] \<and> ''Y'' \<noteq> []
   \<and> safe_scrape_item_between ''aXbYc'' ''X'' ''Y'' 1 = Inr ''b''
   \<and> isl (scrape_item_between ''aXbYc'' ''X'' ''Y'' 2)
   \<and> safe_scrape_item_between ''aXbYc'' ''X'' ''Y'' 2 = Inr []"
proof -
  have h1: "''X'' \<noteq> []" and h2: "''Y'' \<noteq> []" by simp_all
  have e1: "scrape_item_between ''aXbYc'' ''X'' ''Y'' 1 = Inr ''b''" by code_simp
  have e2: "scrape_item_between ''aXbYc'' ''X'' ''Y'' 2
              = Inl (scrape_item_error ''X'' ''Y'')" by code_simp
  from safe_scrape_total[OF h1 h2, of "''aXbYc''" 1] e1
  have a: "safe_scrape_item_between ''aXbYc'' ''X'' ''Y'' 1 = Inr ''b''" by simp
  from safe_scrape_total[OF h1 h2, of "''aXbYc''" 2] e2
  have b: "safe_scrape_item_between ''aXbYc'' ''X'' ''Y'' 2 = Inr []" by simp
  from a b e2 show ?thesis by simp
qed

subsection \<open>Page fetch\<close>

text \<open>
  C2, as claimed regardless of the status code: a body containing \<^verbatim>\<open>Not Authorized\<close>
  yields \<open>AuthError\<close>. The status is tested first, so a response with status 500 and such a
  body raises \<open>ScrapingError\<close>.
\<close>

theorem not_authorized_with_error_status:
  "sublist ''Not Authorized'' ''Not Authorized''
   \<and> fst (scrape_page (\<lambda>url. Returns \<lparr>status_code = 500, body = ''Not Authorized''\<rparr>) 1
            \<lparr>requested = [], stdout = []\<rparr>)
       = Inl (ScrapingError ''Failed to get page. Status code 500'')"
  by code_simp

text \<open>
  C2, amended: a response whose body contains \<^verbatim>\<open>Not Authorized\<close> yields \<open>AuthError\<close>
  when its status is 200, and the \<open>ScrapingError\<close> carrying the status otherwise.
\<close>

theorem not_authorized_page:
  assumes "net (page_url ident) = Returns resp"
    and "sublist ''Not Authorized'' (body resp)"
  shows "fst (scrape_page net ident w) =
           (if status_code resp = 200 then Inl AuthError
            else Inl (ScrapingError (''Failed to get page. Status code ''
                                      @ str_int (status_code resp))))"
  using assms by (simp add: scrape_page_def Let_def)

theorem not_authorized_page_witness:
  "(\<lambda>url. Returns \<lparr>status_code = 200, body = ''<p>Not Authorized</p>''\<rparr>) (page_url 7)
     = Returns \<lparr>status_code = 200, body = ''<p>Not Authorized</p>''\<rparr>
   \<and> sublist ''Not Authorized'' (body \<lparr>status_code = 200, body = ''<p>Not Authorized</p>''\<rparr>)
   \<and> fst (scrape_page (\<lambda>url. Returns \<lparr>status_code = 200, body = ''<p>Not Authorized</p>''\<rparr>)
          7 \<lparr>requested = [], stdout = []\<rparr>) = Inl AuthError"
proof -
  have h1: "(\<lambda>url. Returns \<lparr>status_code = 200, body = ''<p>Not Authorized</p>''\<rparr>) (page_url 7)
     = Returns \<lparr>status_code = 200, body = ''<p>Not Authorized</p>''\<rparr>"
    by simp
  have h2: "sublist ''Not Authorized''
              (body \<lparr>status_code = 200, body = ''<p>Not Authorized</p>''\<rparr>)"
    by code_simp
  from not_authorized_page[OF h1 h2, where w = "\<lparr>requested = [], stdout = []\<rparr>"] h2
  show ?thesis by simp
qed

text \<open>
  C9, as claimed: every transport failure yields \<open>ScrapingError\<close>, and a response with a
  success status yields its body. A read timeout is raised as it is, and a response with
  status 200 whose body contains \<^verbatim>\<open>Not Authorized\<close> yields \<open>AuthError\<close>.
\<close>

theorem scrape_page_other_outcomes:
  "fst (scrape_page (\<lambda>url. Raises ReadTimeout) 1 \<lparr>requested = [], stdout = []\<rparr>)
     = Inl (RequestsError ReadTimeout)
   \<and> fst (scrape_page (\<lambda>url. Returns \<lparr>status_code = 200, body = ''Not Authorized''\<rparr>) 1
            \<lparr>requested = [], stdout = []\<rparr>) = Inl AuthError"
  by code_simp

text \<open>
  C9, amended: the page fetch makes one request. It fails with \<open>ScrapingError\<close> when the
  request raises \<open>ConnectionError\<close> or one of its subclasses, and passes on any other
  exception of the request. It fails with the \<open>ScrapingError\<close> carrying the status code when
  the status is not 200, with \<open>AuthError\<close> when the status is 200 and the body contains
  \<^verbatim>\<open>Not Authorized\<close>, and otherwise returns the body.
\<close>

theorem scrape_page_outcomes:
  "(net (page_url ident) = Raises e \<longrightarrow> isinstance_ConnectionError e \<longrightarrow>
      fst (scrape_page net ident w) = Inl (ScrapingError ''ConnectionError''))
   \<and> (net (page_url ident) = Raises e \<longrightarrow> \<not> isinstance_ConnectionError e \<longrightarrow>
      fst (scrape_page net ident w) = Inl (RequestsError e))
   \<and> (net (page_url ident) = Returns resp \<longrightarrow> status_code resp \<noteq> 200 \<longrightarrow>
      fst (scrape_page net ident w)
        = Inl (ScrapingError (''Failed to get page. Status code ''
                               @ str_int (status_code resp))))
   \<and> (net (page_url ident) = Returns resp \<longrightarrow> status_code resp = 200 \<longrightarrow>
      sublist ''Not Authorized'' (body resp) \<longrightarrow>
      fst (scrape_page net ident w) = Inl AuthError)
   \<and> (net (page_url ident) = Returns resp \<longrightarrow> status_code resp = 200 \<longrightarrow>
      \<not> sublist ''Not Authorized'' (body resp) \<longrightarrow>
      fst (scrape_page net ident w) = Inr (body resp))
   \<and> snd (scrape_page net ident w) = w\<lparr>requested := requested w @ [page_url ident]\<rparr>"
  by (cases "net (page_url ident)") (simp_all add: scrape_page_def Let_def)

theorem scrape_page_outcomes_witness:
  "fst (scrape_page (\<lambda>url. Raises ConnectTimeout) 3 \<lparr>requested = [], stdout = []\<rparr>)
     = Inl (ScrapingError ''ConnectionError'')
   \<and> fst (scrape_page (\<lambda>url. Raises TooManyRedirects) 3 \<lparr>requested = [], stdout = []\<rparr>)
     = Inl (RequestsError TooManyRedirects)
   \<and> fst (scrape_page (\<lambda>url. Returns \<lparr>status_code = 404, body = ''gone''\<rparr>) 3
        \<lparr>requested = [], stdout = []\<rparr>)
     = Inl (ScrapingError ''Failed to get page. Status code 404'')
   \<and> fst (scrape_page (\<lambda>url. Returns \<lparr>status_code = 200, body = ''Not Authorized''\<rparr>) 3
        \<lparr>requested = [], stdout = []\<rparr>)
     = Inl AuthError
   \<and> fst (scrape_page (\<lambda>url. Returns \<lparr>status_code = 200, body = ''<html>''\<rparr>) 3
        \<lparr>requested = [], stdout = []\<rparr>)
     = Inr ''<html>''"
proof -
  let ?w = "\<lparr>requested = [], stdout = []\<rparr>"
  have s404: "str_int 404 = ''404''" by code_simp
  have na: "sublist ''Not Authorized'' ''Not Authorized''" by simp
  have nb: "\<not> sublist ''Not Authorized'' ''<html>''" by code_simp
  from scrape_page_outcomes[where net = "\<lambda>url. Raises ConnectTimeout" and ident = 3
         and e = ConnectTimeout and w = ?w]
  have a: "fst (scrape_page (\<lambda>url. Raises ConnectTimeout) 3 ?w)
             = Inl (ScrapingError ''ConnectionError'')" by simp
  from scrape_page_outcomes[where net = "\<lambda>url. Raises TooManyRedirects" and ident = 3
         and e = TooManyRedirects and w = ?w]
  have b: "fst (scrape_page (\<lambda>url. Raises TooManyRedirects) 3 ?w)
             = Inl (RequestsError TooManyRedirects)" by simp
  from scrape_page_outcomes[where net = "\<lambda>url. Returns \<lparr>status_code = 404, body = ''gone''\<rparr>"
         and ident = 3 and w = ?w and resp = "\<lparr>status_code = 404, body = ''gone''\<rparr>"] s404
  have c: "fst (scrape_page (\<lambda>url. Returns \<lparr>status_code = 404, body = ''gone''\<rparr>) 3 ?w)
             = Inl (ScrapingError ''Failed to get page. Status code 404'')" by simp
  from scrape_page_outcomes[where
         net = "\<lambda>url. Returns \<lparr>status_code = 200, body = ''Not Authorized''\<rparr>"
         and ident = 3 and w = ?w
         and resp = "\<lparr>status_code = 200, body = ''Not Authorized''\<rparr>"] na
  have d: "fst (scrape_page (\<lambda>url. Returns \<lparr>status_code = 200, body = ''Not Authorized''\<rparr>)
                  3 ?w) = Inl AuthError" by simp
  from scrape_page_outcomes[where
         net = "\<lambda>url. Returns \<lparr>status_code = 200, body = ''<html>''\<rparr>"
         and ident = 3 and w = ?w and resp = "\<lparr>status_code = 200, body = ''<html>''\<rparr>"] nb
  have e: "fst (scrape_page (\<lambda>url. Returns \<lparr>status_code = 200, body = ''<html>''\<rparr>) 3 ?w)
             = Inr ''<html>''" by simp
  from a b c d e show ?thesis by simp
qed

subsection \<open>Items and occurrence indices\<close>

lemma items_between_nth:
  "before_s \<noteq> [] \<Longrightarrow> after_nth before_s (Suc n) s = Some r \<Longrightarrow>
   n < length (items_between before_s after_s s) \<and>
   items_between before_s after_s s ! n = upto_first after_s (upto_first before_s r)"
proof (induction n arbitrary: s)
  case 0
  then show ?case
    by (subst (1 2) items_between.simps) (auto split: option.splits)
next
  case (Suc n)
  from Suc.prems(2) obtain a s' where f: "find_first before_s s = Some (a, s')"
    and r: "after_nth before_s (Suc n) s' = Some r"
    by (auto split: option.splits)
  from Suc.IH[OF Suc.prems(1) r] f Suc.prems(1) show ?case
    by (subst (1 2) items_between.simps) simp
qed

lemma items_between_short:
  "before_s \<noteq> [] \<Longrightarrow> after_nth before_s (Suc n) s = None \<Longrightarrow>
   length (items_between before_s after_s s) \<le> n"
proof (induction n arbitrary: s)
  case 0
  then show ?case
    by (subst items_between.simps) (auto split: option.splits)
next
  case (Suc n)
  show ?case
  proof (cases "find_first before_s s")
    case None
    with Suc.prems(1) show ?thesis
      by (subst items_between.simps) simp
  next
    case (Some p)
    obtain a s' where p: "p = (a, s')" by (cases p)
    with Some Suc.prems(2) have "after_nth before_s (Suc n) s' = None" by simp
    from Suc.IH[OF Suc.prems(1) this] Some p Suc.prems(1) show ?thesis
      by (subst items_between.simps) simp
  qed
qed

text \<open>
  Strict extraction at an index from 1 on returns the item at that index when there is
  one and raises otherwise; the best-effort form gives the empty string then.
\<close>

lemma strict_item_at:
  assumes "before_s \<noteq> []" and "after_s \<noteq> []" and "1 \<le> k"
  shows "scrape_item_between source before_s after_s (int k) =
           (if k \<le> length (items_between before_s after_s source)
            then Inr (item_at before_s after_s source k)
            else Inl (scrape_item_error before_s after_s))"
proof -
  from assms(3) obtain n where k: "k = Suc n" by (cases k) auto
  have s: "scrape_item_between source before_s after_s (int k) =
     (case after_nth before_s k source of
        None \<Rightarrow> Inl (scrape_item_error before_s after_s)
      | Some r \<Rightarrow> Inr (upto_first after_s (upto_first before_s r)))"
    using scrape_item_between_nonneg[OF assms(1,2), of "int k" source] by simp
  show ?thesis
  proof (cases "after_nth before_s k source")
    case None
    with k assms(1) have "length (items_between before_s after_s source) \<le> n"
      by (intro items_between_short) simp_all
    with None s k show ?thesis by simp
  next
    case (Some r)
    with k assms(1) have "n < length (items_between before_s after_s source) \<and>
       items_between before_s after_s source ! n
         = upto_first after_s (upto_first before_s r)"
      by (intro items_between_nth) simp_all
    with Some s k show ?thesis by (simp add: item_at_def)
  qed
qed

lemma safe_item_at:
  assumes "before_s \<noteq> []" and "after_s \<noteq> []" and "1 \<le> k"
  shows "safe_scrape_item_between source before_s after_s (int k)
           = Inr (item_at before_s after_s source k)"
  using strict_item_at[OF assms, of source]
  by (simp add: safe_scrape_item_between_def scrape_item_error_def item_at_def)

lemma items_between_empty_iff:
  "before_s \<noteq> [] \<Longrightarrow> items_between before_s after_s s = [] \<longleftrightarrow> \<not> sublist before_s s"
  by (subst items_between.simps)
     (simp add: find_first_None_iff[symmetric] split: option.splits)

lemma item_at_absent:
  assumes "\<not> sublist before_s s"
  shows "item_at before_s after_s s k = []"
proof -
  from assms have "before_s \<noteq> []" by auto
  with assms have "items_between before_s after_s s = []"
    by (simp add: items_between_empty_iff)
  then show ?thesis by (auto simp: item_at_def)
qed

lemma bold_delimiters_nonempty: "bold_before \<noteq> []" "bold_after \<noteq> []"
  by (simp_all add: bold_before_def bold_after_def)

lemma label_delimiters_nonempty:
  "name_before \<noteq> []" "state_before \<noteq> []" "city_before \<noteq> []" "last_updated_before \<noteq> []"
  by (simp_all add: name_before_def state_before_def city_before_def last_updated_before_def)

lemma section_marker_nonempty: "section_marker n \<noteq> []"
  by (simp add: section_marker_def)

text \<open>The bolded values of a laid-out text are the values it was laid out from.\<close>

lemma tag_free_no_occurrence: "tag_free t \<Longrightarrow> \<not> sublist bold_before t"
  unfolding tag_free_def
  by (metis sublist_order.order_trans prefix_imp_sublist prefixI)

lemma upto_first_layout:
  "tag_free gap \<Longrightarrow> upto_first bold_before (layout gap rest) = gap"
proof (cases rest)
  case Nil
  then show "tag_free gap \<Longrightarrow> upto_first bold_before (layout gap rest) = gap"
    by (simp add: upto_first_no_occurrence tag_free_no_occurrence)
next
  case (Cons p rest')
  obtain v g where "p = (v, g)" by (cases p)
  with Cons show "tag_free gap \<Longrightarrow> upto_first bold_before (layout gap rest) = gap"
    by (simp add: upto_first_append tag_free_def)
qed

lemma bolded_values_layout:
  assumes "tag_free gap"
    and "\<forall>(v, gap') \<in> set vgs. tag_free (v @ bold_after @ gap')
                                 \<and> \<not> sublist bold_after (v @ butlast bold_after)"
  shows "bolded_values (layout gap vgs) = map fst vgs"
  using assms
proof (induction vgs arbitrary: gap)
  case Nil
  then show ?case
    by (simp add: bolded_values_def items_between_empty_iff bold_delimiters_nonempty
        tag_free_no_occurrence)
next
  case (Cons p rest)
  obtain v g where p: "p = (v, g)" by (cases p)
  from Cons.prems(2) p have t: "tag_free (v @ bold_after @ g)"
    and c: "\<not> sublist bold_after (v @ butlast bold_after)"
    and r: "\<forall>(v, gap') \<in> set rest. tag_free (v @ bold_after @ gap')
                                 \<and> \<not> sublist bold_after (v @ butlast bold_after)"
    by simp_all
  let ?r = "layout (v @ bold_after @ g) rest"
  from Cons.prems(1) have f: "find_first bold_before (gap @ bold_before @ ?r) = Some (gap, ?r)"
    by (simp add: find_first_append tag_free_def)
  have "bolded_values (layout gap (p # rest))
          = upto_first bold_after (upto_first bold_before ?r) # bolded_values ?r"
    unfolding bolded_values_def p layout.simps
    by (subst items_between.simps) (simp add: f bold_delimiters_nonempty)
  also have "upto_first bold_before ?r = v @ bold_after @ g"
    using t by (rule upto_first_layout)
  also have "upto_first bold_after (v @ bold_after @ g) = v"
    using c by (rule upto_first_append)
  also have "bolded_values ?r = map fst rest"
    using t r by (rule Cons.IH)
  finally show ?case by (simp add: p)
qed

lemma safe_bolded_value:
  "1 \<le> k \<Longrightarrow> safe_scrape_item_between s bold_before bold_after (int k) = Inr (value_at s k)"
  by (simp add: safe_item_at bold_delimiters_nonempty value_at_def)

lemmas safe_bolded_values =
  safe_bolded_value[of 1, simplified] safe_bolded_value[of 2, simplified]
  safe_bolded_value[of 3, simplified] safe_bolded_value[of 4, simplified]
  safe_bolded_value[of 5, simplified] safe_bolded_value[of 6, simplified]
  safe_bolded_value[of 7, simplified] safe_bolded_value[of 8, simplified]

lemma value_at_nth:
  "bolded_values s = vs \<Longrightarrow> 1 \<le> k \<Longrightarrow> k \<le> length vs \<Longrightarrow> value_at s k = vs ! (k - 1)"
  by (simp add: value_at_def item_at_def bolded_values_def)

text \<open>Section extraction raises exactly when the marker of the section is missing.\<close>

lemma scrape_section_eq:
  "scrape_section page n =
     (if sublist (section_marker n) page then Inr (section_of page n)
      else Inl (scrape_item_error (section_marker n) (section_marker (n + 1))))"
proof -
  have "scrape_section page n
          = scrape_item_between page (section_marker n) (section_marker (n + 1)) (int 1)"
    by (simp add: scrape_section_def section_marker_def)
  also have "\<dots> =
     (if 1 \<le> length (items_between (section_marker n) (section_marker (n + 1)) page)
      then Inr (section_of page n)
      else Inl (scrape_item_error (section_marker n) (section_marker (n + 1))))"
    unfolding section_of_def
    by (rule strict_item_at) (simp_all add: section_marker_nonempty)
  also have "1 \<le> length (items_between (section_marker n) (section_marker (n + 1)) page)
               \<longleftrightarrow> sublist (section_marker n) page"
    using items_between_empty_iff[OF section_marker_nonempty, of n "section_marker (n + 1)" page]
    by (cases "items_between (section_marker n) (section_marker (n + 1)) page") auto
  finally show ?thesis .
qed

text \<open>The field parsers in terms of items and bolded values.\<close>

lemma labelled_fields:
  "scrape_name page = Inr (item_at name_before bold_after page 1)"
  "scrape_state page = Inr (item_at state_before bold_after page 1)"
  "scrape_city page = Inr (item_at city_before bold_after page 1)"
  "scrape_last_updated page = Inr (item_at last_updated_before ''<'' page 1)"
  using safe_item_at[of _ _ 1 page]
  by (simp_all add: scrape_name_def scrape_state_def scrape_city_def scrape_last_updated_def
      label_delimiters_nonempty bold_delimiters_nonempty)

lemma section_fields:
  "scrape_salary page =
     (case scrape_section page 10 of
        Inl e \<Rightarrow> Inl e
      | Inr s \<Rightarrow> Inr (map (value_at s) [1, 3, 5, 7]))"
  "scrape_pto page =
     (case scrape_section page 10 of
        Inl e \<Rightarrow> Inl e
      | Inr s \<Rightarrow> Inr (map (value_at s) [2, 4, 6, 8]))"
  "scrape_min_step_score page =
     (case scrape_section page 27 of
        Inl e \<Rightarrow> Inl e
      | Inr s \<Rightarrow> Inr (map (value_at s) [2, 3]))"
  "scrape_avg_step_score page =
     (case scrape_section page 19 of
        Inl e \<Rightarrow> Inl e
      | Inr s \<Rightarrow> Inr (map (value_at s) [1, 2]))"
  "scrape_resident_demographics page =
     (case scrape_section page 17 of
        Inl e \<Rightarrow> Inl e
      | Inr s \<Rightarrow> Inr \<lparr>total = value_at s 1, male = value_at s 4, female = value_at s 3\<rparr>)"
  by (simp_all add: scrape_salary_def scrape_pto_def scrape_min_step_score_def
      scrape_avg_step_score_def scrape_resident_demographics_def exn_bind_def
      safe_bolded_values split: sum.splits)

subsection \<open>Salary and time off\<close>

text \<open>
  C4. When section 10 of a page has the eight bolded values \<open>v1, \<dots>, v8\<close>, salary
  extraction returns those at the indices 1, 3, 5, 7 and time-off extraction those at the
  indices 2, 4, 6, 8.
\<close>

theorem salary_and_pto_positions:
  assumes "sublist (section_marker 10) page"
    and "bolded_values (section_of page 10) = [v1, v2, v3, v4, v5, v6, v7, v8]"
  shows "scrape_salary page = Inr [v1, v3, v5, v7] \<and> scrape_pto page = Inr [v2, v4, v6, v8]"
  using assms(1) value_at_nth[OF assms(2)]
  by (simp add: section_fields scrape_section_eq)

theorem salary_and_pto_positions_witness:
  "sublist (section_marker 10) compensation_page
   \<and> bolded_values (section_of compensation_page 10)
     = [''50000'', ''10'', ''52000'', ''12'', ''54000'', ''14'', ''56000'', ''16'']
   \<and> scrape_salary compensation_page = Inr [''50000'', ''52000'', ''54000'', ''56000'']
   \<and> scrape_pto compensation_page = Inr [''10'', ''12'', ''14'', ''16'']"
proof -
  have h1: "sublist (section_marker 10) compensation_page"
    by code_simp
  have h2: "bolded_values (section_of compensation_page 10)
              = [''50000'', ''10'', ''52000'', ''12'', ''54000'', ''14'', ''56000'', ''16'']"
    by code_simp
  from salary_and_pto_positions[OF h1 h2] h1 h2 show ?thesis by simp
qed

subsection \<open>Minimum scores and demographics\<close>

text \<open>
  C5. Minimum-score extraction returns the bolded values at the indices 2 and 3 of section
  27, so not the one at index 1. Demographics extraction returns the bolded values of
  section 17 at index 1 as the total, at index 3 as the female count and at index 4 as the
  male count, so not the one at index 2. A value that the section does not have is the
  empty string; a missing section raises.
\<close>

theorem min_scores_and_demographics_positions:
  "(sublist (section_marker 27) page \<longrightarrow>
      scrape_min_step_score page
        = Inr [value_at (section_of page 27) 2, value_at (section_of page 27) 3])
   \<and> (sublist (section_marker 17) page \<longrightarrow>
      scrape_resident_demographics page
        = Inr \<lparr>total = value_at (section_of page 17) 1,
               male = value_at (section_of page 17) 4,
               female = value_at (section_of page 17) 3\<rparr>)
   \<and> (\<not> sublist (section_marker 27) page \<longrightarrow> isl (scrape_min_step_score page))
   \<and> (\<not> sublist (section_marker 17) page \<longrightarrow> isl (scrape_resident_demographics page))
   \<and> (bolded_values s = a # b # c # d # rest \<longrightarrow>
        value_at s 1 = a \<and> value_at s 2 = b \<and> value_at s 3 = c \<and> value_at s 4 = d)"
  by (simp add: section_fields scrape_section_eq value_at_nth)

theorem min_scores_and_demographics_positions_witness:
  "sublist (section_marker 27) scores_page
   \<and> sublist (section_marker 17) scores_page
   \<and> bolded_values (section_of scores_page 27) = [''Yes'', ''200'', ''210'']
   \<and> bolded_values (section_of scores_page 17) = [''24'', ''2015'', ''20'', ''4'']
   \<and> scrape_min_step_score scores_page = Inr [''200'', ''210'']
   \<and> scrape_resident_demographics scores_page
       = Inr \<lparr>total = ''24'', male = ''4'', female = ''20''\<rparr>
   \<and> \<not> sublist (section_marker 27) ''no sections''
   \<and> \<not> sublist (section_marker 17) ''no sections''
   \<and> isl (scrape_min_step_score ''no sections'')
   \<and> isl (scrape_resident_demographics ''no sections'')"
proof -
  have h27: "sublist (section_marker 27) scores_page" by code_simp
  have h17: "sublist (section_marker 17) scores_page" by code_simp
  have b27: "bolded_values (section_of scores_page 27) = [''Yes'', ''200'', ''210'']"
    by code_simp
  have b17: "bolded_values (section_of scores_page 17) = [''24'', ''2015'', ''20'', ''4'']"
    by code_simp
  have v27: "value_at (section_of scores_page 27) 2 = ''200''"
    "value_at (section_of scores_page 27) 3 = ''210''"
    using b27 by (simp_all add: value_at_nth)
  have v17: "value_at (section_of scores_page 17) 1 = ''24''"
    "value_at (section_of scores_page 17) 3 = ''20''"
    "value_at (section_of scores_page 17) 4 = ''4''"
    using min_scores_and_demographics_positions[where s = "section_of scores_page 17"
        and a = "''24''" and b = "''2015''" and c = "''20''" and d = "''4''" and rest = "[]"]
      b17
    by simp_all
  have n27: "\<not> sublist (section_marker 27) ''no sections''" by code_simp
  have n17: "\<not> sublist (section_marker 17) ''no sections''" by code_simp
  from min_scores_and_demographics_positions[where page = scores_page] h27 h17 v27 v17
  have a: "scrape_min_step_score scores_page = Inr [''200'', ''210'']"
    and b: "scrape_resident_demographics scores_page
              = Inr \<lparr>total = ''24'', male = ''4'', female = ''20''\<rparr>"
    by simp_all
  from min_scores_and_demographics_positions[where page = "''no sections''"] n27 n17
  have c: "isl (scrape_min_step_score ''no sections'')"
    and d: "isl (scrape_resident_demographics ''no sections'')"
    by simp_all
  from h27 h17 b27 b17 a b n27 n17 c d show ?thesis by simp
qed

subsection \<open>Record assembly\<close>

text \<open>
  The parsers of the sections run in the order 10, 27, 19, 17. The error of the first
  section that is missing ends the assembly; with all four present the record of the page
  is returned.
\<close>

lemma parse_fields_eq:
  "parse_fields page =
     (if \<not> sublist (section_marker 10) page
      then Inl (scrape_item_error (section_marker 10) (section_marker 11))
      else if \<not> sublist (section_marker 27) page
      then Inl (scrape_item_error (section_marker 27) (section_marker 28))
      else if \<not> sublist (section_marker 19) page
      then Inl (scrape_item_error (section_marker 19) (section_marker 20))
      else if \<not> sublist (section_marker 17) page
      then Inl (scrape_item_error (section_marker 17) (section_marker 18))
      else Inr (page_record page))"
  by (simp add: parse_fields_def labelled_fields section_fields scrape_section_eq
      exn_bind_def page_record_def)

lemma get_residency_info_fst:
  "fst (get_residency_info net ident w) =
     (case fst (scrape_page net ident w) of
        Inl e \<Rightarrow> Inl e
      | Inr page \<Rightarrow> parse_fields page)"
  by (cases "scrape_page net ident w") (simp add: get_residency_info_def split: sum.splits)

lemma get_residency_info_world:
  "snd (get_residency_info net ident w) = w\<lparr>requested := requested w @ [page_url ident]\<rparr>"
  by (simp add: get_residency_info_def scrape_page_def Let_def
      split: http_outcome.splits prod.splits sum.splits)

text \<open>
  C6. An exception of the page fetch leaves the assembler as it is. When the page is
  fetched, the error of the first section among 10, 27, 19, 17 whose extraction fails
  leaves the assembler as it is. A record is returned exactly when the page has its four
  sections, and it is the record of the page, in which a field whose label is missing is
  the empty string.
\<close>

theorem record_all_or_nothing:
  "(fst (scrape_page net ident w) = Inl e \<longrightarrow>
      fst (get_residency_info net ident w) = Inl e)
   \<and> (fst (scrape_page net ident w) = Inr page \<longrightarrow>
        (List.find (\<lambda>n. isl (scrape_section page n)) [10, 27, 19, 17] = Some n \<longrightarrow>
           scrape_section page n = Inl e \<longrightarrow>
           fst (get_residency_info net ident w) = Inl e)
      \<and> (has_sections page \<longrightarrow>
           fst (get_residency_info net ident w) = Inr (page_record page))
      \<and> (\<not> has_sections page \<longrightarrow> isl (fst (get_residency_info net ident w))))
   \<and> (\<not> sublist name_before page \<longrightarrow> name (page_record page) = [])
   \<and> (\<not> sublist state_before page \<longrightarrow> state (page_record page) = [])
   \<and> (\<not> sublist city_before page \<longrightarrow> city (page_record page) = [])
   \<and> (\<not> sublist last_updated_before page \<longrightarrow> last_updated (page_record page) = [])"
proof (intro conjI impI)
  assume "fst (scrape_page net ident w) = Inl e"
  then show "fst (get_residency_info net ident w) = Inl e"
    by (simp add: get_residency_info_fst)
next
  assume p: "fst (scrape_page net ident w) = Inr page"
  then have g: "fst (get_residency_info net ident w) = parse_fields page"
    by (simp add: get_residency_info_fst)
  {
    assume "List.find (\<lambda>n. isl (scrape_section page n)) [10, 27, 19, 17] = Some n"
      and "scrape_section page n = Inl e"
    then show "fst (get_residency_info net ident w) = Inl e"
      unfolding g parse_fields_eq
      by (auto simp: scrape_section_eq split: if_splits)
  }
  {
    assume "has_sections page"
    then show "fst (get_residency_info net ident w) = Inr (page_record page)"
      unfolding g parse_fields_eq by (simp add: has_sections_def)
  }
  {
    assume "\<not> has_sections page"
    then show "isl (fst (get_residency_info net ident w))"
      unfolding g parse_fields_eq by (auto simp: has_sections_def)
  }
qed (simp_all add: page_record_def item_at_absent)

lemma example_page_has_sections: "has_sections example_page"
  by code_simp

lemma example_page_authorized: "\<not> sublist ''Not Authorized'' example_page"
  by code_simp

theorem record_all_or_nothing_witness:
  "fst (scrape_page example_network 1 \<lparr>requested = [], stdout = []\<rparr>)
     = Inl (ScrapingError ''ConnectionError'')
   \<and> fst (get_residency_info example_network 1 \<lparr>requested = [], stdout = []\<rparr>)
     = Inl (ScrapingError ''ConnectionError'')
   \<and> fst (scrape_page example_network 5 \<lparr>requested = [], stdout = []\<rparr>)
     = Inr ''10.&nbsp;only''
   \<and> List.find (\<lambda>n. isl (scrape_section ''10.&nbsp;only'' n)) [10, 27, 19, 17] = Some 27
   \<and> \<not> has_sections ''10.&nbsp;only''
   \<and> fst (get_residency_info example_network 5 \<lparr>requested = [], stdout = []\<rparr>)
     = Inl (scrape_item_error (section_marker 27) (section_marker 28))
   \<and> fst (scrape_page example_network 2 \<lparr>requested = [], stdout = []\<rparr>) = Inr example_page
   \<and> has_sections example_page
   \<and> fst (get_residency_info example_network 2 \<lparr>requested = [], stdout = []\<rparr>)
     = Inr (page_record example_page)
   \<and> name (page_record example_page) = ''Example Program''
   \<and> \<not> sublist state_before example_page
   \<and> state (page_record example_page) = []"
proof -
  let ?w = "\<lparr>requested = [], stdout = []\<rparr>"
  let ?e = "scrape_item_error (section_marker 27) (section_marker 28)"
  have p1: "fst (scrape_page example_network 1 ?w) = Inl (ScrapingError ''ConnectionError'')"
    by code_simp
  have p5: "fst (scrape_page example_network 5 ?w) = Inr ''10.&nbsp;only''"
    by code_simp
  have f5: "List.find (\<lambda>n. isl (scrape_section ''10.&nbsp;only'' n)) [10, 27, 19, 17] = Some 27"
    by code_simp
  have e5: "scrape_section ''10.&nbsp;only'' 27 = Inl ?e"
    by code_simp
  have n5: "\<not> has_sections ''10.&nbsp;only''"
    by code_simp
  have p2: "fst (scrape_page example_network 2 ?w) = Inr example_page"
    by code_simp
  have nm: "name (page_record example_page) = ''Example Program''"
    by code_simp
  have ns: "\<not> sublist state_before example_page"
    by code_simp
  from record_all_or_nothing[where net = example_network and ident = 1 and w = ?w
      and e = "ScrapingError ''ConnectionError''"] p1
  have a: "fst (get_residency_info example_network 1 ?w) = Inl (ScrapingError ''ConnectionError'')"
    by simp
  from record_all_or_nothing[where net = example_network and ident = 5 and w = ?w
      and e = ?e and page = "''10.&nbsp;only''" and n = 27] p5 f5 e5
  have b: "fst (get_residency_info example_network 5 ?w) = Inl ?e"
    by simp
  from record_all_or_nothing[where net = example_network and ident = 2 and w = ?w
      and page = example_page] p2 example_page_has_sections ns
  have c: "fst (get_residency_info example_network 2 ?w) = Inr (page_record example_page)"
    and d: "state (page_record example_page) = []"
    by simp_all
  from p1 a p5 f5 n5 b p2 example_page_has_sections c nm ns d show ?thesis
    by simp
qed

subsection \<open>The driver\<close>

text \<open>
  One round of the loop, for a request that returns or raises an exception the loop
  catches: the identifier is requested once, its progress line is printed, and its record
  is appended exactly when it is served.
\<close>

lemma scrape_loop_step:
  assumes "\<forall>e. net (page_url i) = Raises e \<longrightarrow> isinstance_ConnectionError e \<or> e = ReadTimeout"
  shows "scrape_loop net (i # ids) acc w =
           scrape_loop net ids
             (acc @ (if served net i then [page_record (served_page net i)] else []))
             (w\<lparr>requested := requested w @ [page_url i],
                stdout := stdout w @ progress_line net i\<rparr>)"
proof (cases "net (page_url i)")
  case (Raises e)
  with assms have "isinstance_ConnectionError e \<or> e = ReadTimeout" by simp
  then show ?thesis
  proof
    assume c: "isinstance_ConnectionError e"
    then have "e \<noteq> ReadTimeout" by auto
    with c Raises show ?thesis
      by (simp add: get_residency_info_def scrape_page_def print_def served_def
          progress_line_def outcome_tag_def)
  next
    assume "e = ReadTimeout"
    with Raises show ?thesis
      by (simp add: get_residency_info_def scrape_page_def print_def served_def
          progress_line_def outcome_tag_def)
  qed
next
  case (Returns resp)
  show ?thesis
  proof (cases "status_code resp = 200 \<and> \<not> sublist ''Not Authorized'' (body resp)")
    case False
    with Returns show ?thesis
      by (auto simp: get_residency_info_def scrape_page_def print_def served_def
          progress_line_def outcome_tag_def)
  next
    case True
    with Returns have g: "get_residency_info net i w' =
        (parse_fields (body resp), w'\<lparr>requested := requested w' @ [page_url i]\<rparr>)" for w'
      by (simp add: get_residency_info_def scrape_page_def)
    show ?thesis
    proof (cases "has_sections (body resp)")
      case True
      with \<open>status_code resp = 200 \<and> \<not> sublist ''Not Authorized'' (body resp)\<close> Returns
      show ?thesis
        by (simp add: g parse_fields_eq has_sections_def print_def served_def served_page_def
            progress_line_def outcome_tag_def)
    next
      case False
      with \<open>status_code resp = 200 \<and> \<not> sublist ''Not Authorized'' (body resp)\<close> Returns
      show ?thesis
        by (auto simp: g parse_fields_eq has_sections_def print_def served_def
            progress_line_def outcome_tag_def scrape_item_error_def)
    qed
  qed
qed

lemma scrape_loop_eq:
  assumes "\<forall>i \<in> set ids. \<forall>e. net (page_url i) = Raises e \<longrightarrow>
             isinstance_ConnectionError e \<or> e = ReadTimeout"
  shows "scrape_loop net ids acc w =
           (Inr (acc @ map (\<lambda>i. page_record (served_page net i)) (filter (served net) ids)),
            w\<lparr>requested := requested w @ map page_url ids,
              stdout := stdout w @ concat (map (progress_line net) ids)\<rparr>)"
  using assms
proof (induction ids arbitrary: acc w)
  case Nil
  then show ?case by simp
next
  case (Cons i ids)
  from Cons.prems have h: "\<forall>e. net (page_url i) = Raises e \<longrightarrow>
      isinstance_ConnectionError e \<or> e = ReadTimeout"
    and t: "\<forall>i \<in> set ids. \<forall>e. net (page_url i) = Raises e \<longrightarrow>
      isinstance_ConnectionError e \<or> e = ReadTimeout"
    by simp_all
  show ?case
    unfolding scrape_loop_step[where net = net and i = i, OF h] Cons.IH[OF t] by simp
qed

text \<open>
  C7, as claimed: a request timeout is skipped like \<open>AuthError\<close>. A timeout while
  connecting is a \<open>ConnectTimeout\<close>, which the page fetch catches as a \<open>ConnectionError\<close>
  and turns into a \<open>ScrapingError\<close>: the driver prints FAIL for it, and SKIP for the
  \<^verbatim>\<open>Not Authorized\<close> page.
\<close>

theorem connect_timeout_is_reported_as_failure:
  "prefix (''Starting Scraper...'' @ [CHR 0x0A]
           @ ''Scraping id 1...'' @ [CHR 0x09] @ ''FAIL'' @ [CHR 0x0A])
     (stdout (snd (scrape (\<lambda>url. Raises ConnectTimeout) \<lparr>requested = [], stdout = []\<rparr>)))
   \<and> prefix (''Starting Scraper...'' @ [CHR 0x0A]
           @ ''Scraping id 1...'' @ [CHR 0x09] @ ''SKIP'' @ [CHR 0x0A])
     (stdout (snd (scrape (\<lambda>url. Returns \<lparr>status_code = 200, body = ''Not Authorized''\<rparr>)
                    \<lparr>requested = [], stdout = []\<rparr>)))"
proof -
  let ?w = "\<lparr>requested = [], stdout = []\<rparr>"
  let ?t = "\<lambda>url. Raises ConnectTimeout"
  let ?a = "\<lambda>url. Returns \<lparr>status_code = 200, body = ''Not Authorized''\<rparr>"
  have ids: "[1..LAST_ID - 1] = 1 # [2..LAST_ID - 1]"
    by (simp add: LAST_ID_def upto_rec1)
  have lt: "progress_line ?t 1 = ''Scraping id 1...'' @ [CHR 0x09] @ ''FAIL'' @ [CHR 0x0A]"
    by code_simp
  have la: "progress_line ?a 1 = ''Scraping id 1...'' @ [CHR 0x09] @ ''SKIP'' @ [CHR 0x0A]"
    by code_simp
  have "stdout (snd (scrape ?t ?w)) =
          ''Starting Scraper...'' @ [CHR 0x0A]
          @ concat (map (progress_line ?t) [1..LAST_ID - 1]) @ ''Done.'' @ [CHR 0x0A]"
    by (simp add: scrape_def print_def scrape_loop_eq)
  then have t: "stdout (snd (scrape ?t ?w)) =
          (''Starting Scraper...'' @ [CHR 0x0A]
           @ ''Scraping id 1...'' @ [CHR 0x09] @ ''FAIL'' @ [CHR 0x0A])
          @ concat (map (progress_line ?t) [2..LAST_ID - 1]) @ ''Done.'' @ [CHR 0x0A]"
    unfolding ids by (simp add: lt)
  have "stdout (snd (scrape ?a ?w)) =
          ''Starting Scraper...'' @ [CHR 0x0A]
          @ concat (map (progress_line ?a) [1..LAST_ID - 1]) @ ''Done.'' @ [CHR 0x0A]"
    by (simp add: scrape_def print_def scrape_loop_eq)
  then have a: "stdout (snd (scrape ?a ?w)) =
          (''Starting Scraper...'' @ [CHR 0x0A]
           @ ''Scraping id 1...'' @ [CHR 0x09] @ ''SKIP'' @ [CHR 0x0A])
          @ concat (map (progress_line ?a) [2..LAST_ID - 1]) @ ''Done.'' @ [CHR 0x0A]"
    unfolding ids by (simp add: la)
  show ?thesis
    unfolding t a by (intro conjI prefixI) (rule refl)+
qed

text \<open>
  C7, amended. When every request for an identifier from 1 to 286 returns a response,
  raises a connection error (a connect timeout is one) or raises a read timeout, the driver
  returns the records of the served identifiers, in ascending order and so as many as there
  are served identifiers. It requests each identifier from 1 to 286 once, in order, and
  prints one progress line for each: SKIP for the \<^verbatim>\<open>Not Authorized\<close> page and for a
  read timeout alike, FAIL for a connection error and for every other \<open>ScrapingError\<close>.
\<close>

theorem scrape_collects_served_pages:
  assumes "\<forall>i e. 1 \<le> i \<and> i < LAST_ID \<and> net (page_url i) = Raises e \<longrightarrow>
             isinstance_ConnectionError e \<or> e = ReadTimeout"
  shows "\<exists>records.
           fst (scrape net w) = Inr records
           \<and> length records = length (filter (served net) [1..LAST_ID - 1])
           \<and> records = map (\<lambda>i. page_record (served_page net i))
                          (filter (served net) [1..LAST_ID - 1])
           \<and> requested (snd (scrape net w)) = requested w @ map page_url [1..LAST_ID - 1]
           \<and> stdout (snd (scrape net w)) =
               stdout w @ ''Starting Scraper...'' @ [CHR 0x0A]
               @ concat (map (progress_line net) [1..LAST_ID - 1])
               @ ''Done.'' @ [CHR 0x0A]"
proof -
  have "\<forall>i \<in> set [1..LAST_ID - 1]. \<forall>e. net (page_url i) = Raises e \<longrightarrow>
      isinstance_ConnectionError e \<or> e = ReadTimeout"
  proof (intro ballI allI impI)
    fix i e
    assume "i \<in> set [1..LAST_ID - 1]" and "net (page_url i) = Raises e"
    then have "1 \<le> i \<and> i < LAST_ID \<and> net (page_url i) = Raises e" by simp
    with assms show "isinstance_ConnectionError e \<or> e = ReadTimeout" by blast
  qed
  from scrape_loop_eq[OF this] show ?thesis
    by (simp add: scrape_def print_def)
qed

lemma page_url_eq_iff: "page_url i = page_url j \<longleftrightarrow> str_int i = str_int j"
  by (simp add: page_url_def)

lemma example_network_served: "served example_network i \<longleftrightarrow> str_int i = ''2''"
proof -
  have d: "str_int 1 = ''1''" "str_int 2 = ''2''" by code_simp+
  have n: "\<not> has_sections ''10.&nbsp;only''" by code_simp
  have a: "sublist ''Not Authorized'' ''<p>Not Authorized</p>''" by code_simp
  show ?thesis
    using example_page_has_sections example_page_authorized n a
    by (auto simp: served_def example_network_def page_url_eq_iff d)
qed

lemma example_network_served_ids: "filter (served example_network) [1..LAST_ID - 1] = [2]"
proof -
  have "served example_network = (\<lambda>i. str_int i = ''2'')"
    by (rule ext) (rule example_network_served)
  moreover have "filter (\<lambda>i. str_int i = ''2'') [1..LAST_ID - 1] = [2]" by code_simp
  ultimately show ?thesis by (simp only:)
qed

theorem scrape_collects_served_pages_witness:
  "fst (scrape example_network \<lparr>requested = [], stdout = []\<rparr>)
       = Inr [page_record example_page]
   \<and> requested (snd (scrape example_network \<lparr>requested = [], stdout = []\<rparr>))
       = map page_url [1..LAST_ID - 1]
   \<and> outcome_tag example_network 1 = ''FAIL''
   \<and> outcome_tag example_network 2 = ''SUCCESS''
   \<and> outcome_tag example_network 3 = ''SKIP''
   \<and> outcome_tag example_network 6 = ''SKIP''
   \<and> outcome_tag example_network 7 = ''FAIL''"
proof -
  let ?w = "\<lparr>requested = [], stdout = []\<rparr>"
  have h: "\<forall>i e. 1 \<le> i \<and> i < LAST_ID \<and> example_network (page_url i) = Raises e \<longrightarrow>
             isinstance_ConnectionError e \<or> e = ReadTimeout"
    by (auto simp: example_network_def split: if_splits)
  have p: "served_page example_network 2 = example_page" by code_simp
  have t: "outcome_tag example_network 1 = ''FAIL''"
    "outcome_tag example_network 2 = ''SUCCESS''"
    "outcome_tag example_network 3 = ''SKIP''"
    "outcome_tag example_network 6 = ''SKIP''"
    "outcome_tag example_network 7 = ''FAIL''"
    by code_simp+
  from scrape_collects_served_pages[where net = example_network and w = ?w, OF h]
  have "fst (scrape example_network ?w) = Inr [page_record example_page]
        \<and> requested (snd (scrape example_network ?w)) = map page_url [1..LAST_ID - 1]"
    by (simp add: example_network_served_ids p)
  with t show ?thesis by simp
qed

end
